theory Spec2Isabelle
  imports Complex_Main "HOL-Library.Log_Nat"
begin

section \<open>Python floats: finite binary64 values as rationals\<close>

text \<open>
  The dashboard computes with Python \<open>float\<close>, that is IEEE-754 binary64 with
  round-to-nearest, ties-to-even. A finite double is a rational number, so the model
  represents a float by the rational it denotes and rounds after every operation
  (\<open>rnd_is_double\<close>, \<open>rnd_nearest\<close> and \<open>rnd_mono\<close> below).
  The two zeros are identified (they compare equal in Python and nothing here prints
  a zero); infinities and NaN do not occur, since every value computed from the
  sliders lies between the values at the corners of the slider ranges
  (see \<open>risque_bounded\<close> below).
\<close>

type_synonym float = rat

definition rne :: "rat \<Rightarrow> int" where
  \<comment> \<open>nearest integer, a tie goes to the even neighbour\<close>
  "rne x = (let n = \<lfloor>x\<rfloor>; d = x - of_int n in
     if d < 1 / 2 then n else if 1 / 2 < d then n + 1 else if even n then n else n + 1)"

definition ilog2 :: "rat \<Rightarrow> int" where
  \<comment> \<open>\<open>\<lfloor>log\<^sub>2 x\<rfloor>\<close> for \<open>x > 0\<close>, from the bit lengths of numerator and denominator\<close>
  "ilog2 x = (case quotient_of x of (p, q) \<Rightarrow>
     let k = bitlen p - bitlen q in if 2 powi k \<le> x then k else k - 1)"

definition ulp_exp :: "rat \<Rightarrow> int" where
  \<comment> \<open>exponent of the last mantissa bit: 53 significant bits, subnormals from \<open>2\<^sup>-\<^sup>1\<^sup>0\<^sup>7\<^sup>4\<close>\<close>
  "ulp_exp x = max (ilog2 \<bar>x\<bar> - 52) (- 1074)"

definition rnd :: "rat \<Rightarrow> float" where
  \<comment> \<open>the double nearest to \<open>x\<close>\<close>
  "rnd x = (if x = 0 then 0 else of_int (rne (x / 2 powi ulp_exp x)) * 2 powi ulp_exp x)"

definition float_lit :: "rat \<Rightarrow> float" where
  \<comment> \<open>a decimal literal of the source text, such as \<open>0.4\<close>\<close>
  "float_lit q = rnd q"

definition float_of_int :: "int \<Rightarrow> float" where
  "float_of_int n = rnd (of_int n)"

definition int_truediv :: "int \<Rightarrow> int \<Rightarrow> float" where
  \<comment> \<open>\<open>a / b\<close> on two Python ints: the correctly rounded quotient. The divisors of
      this program are the non-zero literals 200, 1500 and 400.\<close>
  "int_truediv a b = rnd (of_int a / of_int b)"

definition float_add :: "float \<Rightarrow> float \<Rightarrow> float" where
  "float_add x y = rnd (x + y)"

definition float_sub :: "float \<Rightarrow> float \<Rightarrow> float" where
  "float_sub x y = rnd (x - y)"

definition float_truediv :: "float \<Rightarrow> float \<Rightarrow> float" where
  \<comment> \<open>\<open>x / y\<close> on floats; the only divisor of this program is the literal 2\<close>
  "float_truediv x y = rnd (x / y)"

definition py_max :: "float \<Rightarrow> float \<Rightarrow> float" where
  \<comment> \<open>builtin \<open>max(a, b)\<close>: keeps \<open>a\<close> unless \<open>b\<close> is strictly greater\<close>
  "py_max a b = (if a < b then b else a)"

definition py_min :: "float \<Rightarrow> float \<Rightarrow> float" where
  \<comment> \<open>builtin \<open>min(a, b)\<close>: keeps \<open>a\<close> unless \<open>b\<close> is strictly smaller\<close>
  "py_min a b = (if b < a then b else a)"

section \<open>Tab 2: the risk scorer\<close>

datatype py_error = KeyError | ValueError | OtherError string

definition opt_xgboost :: string where
  \<comment> \<open>\<open>"XGBoost (89.4%) "\<close> followed by U+2705, as UTF-8\<close>
  "opt_xgboost = ''XGBoost (89.4%) '' @ [CHR 0xE2, CHR 0x9C, CHR 0x85]"

definition opt_randomforest :: string where
  "opt_randomforest = ''RandomForest (87.8%)''"

definition opt_logistic :: string where
  "opt_logistic = ''Logistic (84.6%)''"

definition model_options :: "string list" where
  \<comment> \<open>the options of the sidebar selectbox; \<open>model_choice\<close> is one of them\<close>
  "model_options = [opt_xgboost, opt_randomforest, opt_logistic]"

definition scores_modeles :: "(string \<times> float) list" where
  "scores_modeles =
     [(opt_xgboost, float_lit (89 / 100)),
      (opt_randomforest, float_lit (87 / 100)),
      (opt_logistic, float_lit (84 / 100))]"

definition in_sliders :: "int \<Rightarrow> int \<Rightarrow> int \<Rightarrow> int \<Rightarrow> bool" where
  \<comment> \<open>the ranges of the three sliders and the options of the \<open>cp\<close> selectbox\<close>
  "in_sliders age chol thalach cp \<longleftrightarrow>
     20 \<le> age \<and> age \<le> 80 \<and> 100 \<le> chol \<and> chol \<le> 600 \<and>
     70 \<le> thalach \<and> thalach \<le> 220 \<and> cp \<in> set [1, 2, 3, 4]"

definition risque :: "int \<Rightarrow> int \<Rightarrow> int \<Rightarrow> float" where
  "risque age chol thalach =
     float_sub
       (float_add
          (float_add (float_lit (4 / 10)) (int_truediv (age - 50) 200))
          (int_truediv (chol - 250) 1500))
       (int_truediv (thalach - 150) 400)"

definition raw_score :: "float \<Rightarrow> float \<Rightarrow> float" where
  \<comment> \<open>\<open>base_score + (risque - 0.4) / 2\<close>, the argument of the clamp\<close>
  "raw_score base_score r =
     float_add base_score
       (float_truediv (float_sub r (float_lit (4 / 10))) (float_of_int 2))"

definition proba_of :: "float \<Rightarrow> float \<Rightarrow> float" where
  "proba_of base_score r =
     py_min (float_lit (95 / 100)) (py_max (float_lit (5 / 100)) (raw_score base_score r))"

definition label_maladie :: string where
  \<comment> \<open>U+1FAC0 and \<open>" MALADIE"\<close>: the label the spec calls "disease"\<close>
  "label_maladie = [CHR 0xF0, CHR 0x9F, CHR 0xAB, CHR 0x80] @ '' MALADIE''"

definition label_sain :: string where
  \<comment> \<open>U+2705 and \<open>" SAIN"\<close>: the label the spec calls "healthy"\<close>
  "label_sain = [CHR 0xE2, CHR 0x9C, CHR 0x85] @ '' SAIN''"

record prediction =
  risk :: float
  proba :: float
  label :: string

definition predict :: "string \<Rightarrow> int \<Rightarrow> int \<Rightarrow> int \<Rightarrow> int \<Rightarrow> py_error + prediction" where
  \<comment> \<open>the body of \<open>if submit:\<close>; \<open>cp\<close> is read from the form and not used\<close>
  "predict model_choice age chol thalach cp =
     (let risque = risque age chol thalach in
      case map_of scores_modeles model_choice of
        None \<Rightarrow> Inl KeyError
      | Some base_score \<Rightarrow>
          let proba = proba_of base_score risque in
          Inr \<lparr>risk = risque, proba = proba,
               label = (if float_lit (6 / 10) \<le> proba then label_maladie else label_sain)\<rparr>)"

section \<open>The scorer as the specification words it\<close>

text \<open>
  The specification describes the scorer with three model variants carrying a base
  score, a \<open>clamp\<close> between a lower and an upper bound, and the labels "disease" and
  "healthy". These definitions follow its words; the arithmetic is the float
  arithmetic above, as the specification asks for bit-for-bit parity.
\<close>

datatype ModelChoice = XGBoost | RandomForest | Logistic

datatype Label = disease | healthy

fun baseScoreOf :: "ModelChoice \<Rightarrow> float" where
  "baseScoreOf XGBoost = float_lit (89 / 100)"
| "baseScoreOf RandomForest = float_lit (87 / 100)"
| "baseScoreOf Logistic = float_lit (84 / 100)"

definition clamp :: "float \<Rightarrow> float \<Rightarrow> float \<Rightarrow> float" where
  "clamp v lower upper = (if v < lower then lower else if upper < v then upper else v)"

definition spec_risk :: "int \<Rightarrow> int \<Rightarrow> int \<Rightarrow> float" where
  "spec_risk age chol thalach =
     float_sub
       (float_add
          (float_add (float_lit (4 / 10)) (int_truediv (age - 50) 200))
          (int_truediv (chol - 250) 1500))
       (int_truediv (thalach - 150) 400)"

definition spec_score :: "int \<Rightarrow> int \<Rightarrow> int \<Rightarrow> int \<Rightarrow> ModelChoice \<Rightarrow> float \<times> Label" where
  "spec_score age chol thalach cp model =
     (let risk = spec_risk age chol thalach;
          base = baseScoreOf model;
          proba = clamp (float_add base (float_truediv (float_sub risk (float_lit (4 / 10))) (float_of_int 2)))
                    (float_lit (5 / 100)) (float_lit (95 / 100));
          label = (if float_lit (6 / 10) \<le> proba then disease else healthy)
      in (proba, label))"

fun option_of :: "ModelChoice \<Rightarrow> string" where
  "option_of XGBoost = opt_xgboost"
| "option_of RandomForest = opt_randomforest"
| "option_of Logistic = opt_logistic"

fun label_text :: "Label \<Rightarrow> string" where
  "label_text disease = label_maladie"
| "label_text healthy = label_sain"

text \<open>
  The same formula in exact rational arithmetic, as one reads it on paper, to measure
  how far the rounding takes the computed values from it.
\<close>

definition risque_exact :: "int \<Rightarrow> int \<Rightarrow> int \<Rightarrow> rat" where
  "risque_exact age chol thalach =
     4 / 10 + of_int (age - 50) / 200 + of_int (chol - 250) / 1500 - of_int (thalach - 150) / 400"

definition raw_score_exact :: "rat \<Rightarrow> rat \<Rightarrow> rat" where
  "raw_score_exact base r = base + (r - 4 / 10) / 2"

fun base_exact :: "ModelChoice \<Rightarrow> rat" where
  "base_exact XGBoost = 89 / 100"
| "base_exact RandomForest = 87 / 100"
| "base_exact Logistic = 84 / 100"

section \<open>Tab 1: the data loader\<close>

text \<open>
  A data frame is the list of its columns, each a name with its cells, in the order of
  the dictionary literal that builds the default frame. \<open>pd.read_csv\<close> is the
  environment: a parameter that maps what is read to a frame or to the exception
  raised. An uploaded file is given by its bytes.
\<close>

datatype cell = IntCell int | FloatCell float | StrCell string | NaCell

type_synonym dataframe = "(string \<times> cell list) list"

datatype csv_source = Uploaded string | Remote string

record loaded =
  warnings :: "string list"
  df :: dataframe

definition default_url :: string where
  "default_url = ''https://raw.githubusercontent.com/sharmaroshan/Heart-UCI-Dataset/master/heart.csv''"

definition heart_columns :: "string list" where
  "heart_columns =
     [''age'', ''sex'', ''cp'', ''trestbps'', ''chol'', ''fbs'', ''restecg'',
      ''thalach'', ''exang'', ''oldpeak'', ''slope'', ''ca'', ''thal'', ''target'']"

definition set_columns :: "dataframe \<Rightarrow> string list \<Rightarrow> py_error + dataframe" where
  \<comment> \<open>\<open>df.columns = names\<close>: pandas relabels the columns in order, and raises
      ValueError (length mismatch) when the number of names is not the number of columns\<close>
  "set_columns t names =
     (if length names = length t then Inr (zip names (map snd t)) else Inl ValueError)"

definition warning_text :: string where
  "warning_text = [CHR 0xE2, CHR 0x9A, CHR 0xA0, CHR 0xEF, CHR 0xB8, CHR 0x8F] @ '' Probl'' @ [CHR 0xC3, CHR 0xA8] @ ''me dataset '' @ [CHR 0xE2, CHR 0x80, CHR 0x93] @ '' donn'' @ [CHR 0xC3, CHR 0xA9] @ ''es par d'' @ [CHR 0xC3, CHR 0xA9] @ ''faut utilis'' @ [CHR 0xC3, CHR 0xA9] @ ''es''"

definition fallback_df :: dataframe where
  "fallback_df =
     [(''age'', [IntCell 45, IntCell 55, IntCell 65]),
      (''chol'', [IntCell 210, IntCell 260, IntCell 320]),
      (''thalach'', [IntCell 150, IntCell 140, IntCell 120]),
      (''target'', [IntCell 0, IntCell 1, IntCell 1])]"

definition try_block :: "(csv_source \<Rightarrow> py_error + dataframe) \<Rightarrow> string option \<Rightarrow> py_error + dataframe" where
  \<comment> \<open>the body of \<open>try:\<close>\<close>
  "try_block read_csv uploaded_file =
     (case uploaded_file of
        Some f \<Rightarrow> read_csv (Uploaded f)
      | None \<Rightarrow>
          (case read_csv (Remote default_url) of
             Inl e \<Rightarrow> Inl e
           | Inr t \<Rightarrow> set_columns t heart_columns))"

definition load_data :: "(csv_source \<Rightarrow> py_error + dataframe) \<Rightarrow> string option \<Rightarrow> loaded" where
  \<comment> \<open>\<open>try: ... except: st.warning(...); df = pd.DataFrame({...})\<close>; the bare
      \<open>except\<close> catches every exception\<close>
  "load_data read_csv uploaded_file =
     (case try_block read_csv uploaded_file of
        Inr t \<Rightarrow> \<lparr>warnings = [], df = t\<rparr>
      | Inl e \<Rightarrow> \<lparr>warnings = [warning_text], df = fallback_df\<rparr>)"

definition two_columns :: dataframe where
  \<comment> \<open>a remote file with two columns\<close>
  "two_columns = [(''age'', [IntCell 63, IntCell 37]), (''target'', [IntCell 1, IntCell 0])]"

definition serves_two_columns :: "csv_source \<Rightarrow> py_error + dataframe" where
  "serves_two_columns src = Inr two_columns"

definition unreadable :: "csv_source \<Rightarrow> py_error + dataframe" where
  \<comment> \<open>an environment in which every read fails: the upload does not parse and the
      network is down\<close>
  "unreadable src =
     (case src of
        Uploaded f \<Rightarrow> Inl (OtherError ''EmptyDataError'')
      | Remote u \<Rightarrow> Inl (OtherError ''URLError''))"

definition fourteen_columns :: dataframe where
  \<comment> \<open>a remote file with fourteen columns under other names, one row\<close>
  "fourteen_columns =
     [(''a'', [IntCell 63]), (''b'', [IntCell 1]), (''c'', [IntCell 3]), (''d'', [IntCell 145]),
      (''e'', [IntCell 233]), (''f'', [IntCell 1]), (''g'', [IntCell 0]), (''h'', [IntCell 150]),
      (''i'', [IntCell 0]), (''j'', [FloatCell (float_lit (23 / 10))]), (''k'', [IntCell 0]),
      (''l'', [IntCell 0]), (''m'', [IntCell 1]), (''n'', [IntCell 1])]"

definition serves_fourteen_columns :: "csv_source \<Rightarrow> py_error + dataframe" where
  "serves_fourteen_columns src = Inr fourteen_columns"

section \<open>Tab 4: the JSON export\<close>

text \<open>
  The download is \<open>str(json_data)\<close>, Python's own text for a dictionary: the \<open>repr\<close> of
  each key and value. The \<open>repr\<close> of a float is the shortest decimal that rounds to it;
  of two shortest ones the nearer, and of two equally near the one with the even
  last digit. The result is \<open>None\<close> outside what is modelled: for a string with a byte
  beyond ASCII, whose escaping follows the Unicode tables, and for a rational that is
  not a double.
\<close>

datatype py_value =
  PyStr string | PyFloat float | PyList "py_value list" | PyDict "(string \<times> py_value) list"

definition digit_char :: "int \<Rightarrow> char" where
  "digit_char d = char_of (48 + d)"

function int_digits :: "int \<Rightarrow> string" where
  \<comment> \<open>the decimal digits of a non-negative integer\<close>
  "int_digits n = (if n < 10 then [digit_char n] else int_digits (n div 10) @ [digit_char (n mod 10)])"
  by pat_completeness auto
termination
  by (relation "measure nat") auto

definition ilog10 :: "rat \<Rightarrow> int" where
  \<comment> \<open>\<open>\<lfloor>log\<^sub>1\<^sub>0 x\<rfloor>\<close> for \<open>x > 0\<close>, from the digit counts of numerator and denominator\<close>
  "ilog10 x = (case quotient_of x of (p, q) \<Rightarrow>
     let k = int (length (int_digits p)) - int (length (int_digits q))
     in if 10 powi k \<le> x then k else k - 1)"

definition round_trips :: "float \<Rightarrow> int \<Rightarrow> int \<Rightarrow> bool" where
  "round_trips x c e \<longleftrightarrow> rnd (of_int c * 10 powi e) = x"

definition digits_at :: "float \<Rightarrow> nat \<Rightarrow> (int \<times> int) option" where
  \<comment> \<open>the decimal \<open>c \<times> 10\<^sup>e\<close> with \<open>n\<close> significant digits that reads back as \<open>x\<close>, if any\<close>
  "digits_at x n =
     (let e = ilog10 x - int n + 1; m = x / 10 powi e; lo = \<lfloor>m\<rfloor>; hi = lo + 1 in
      if round_trips x lo e \<and>
         (\<not> round_trips x hi e \<or> m - of_int lo < of_int hi - m \<or>
          (m - of_int lo = of_int hi - m \<and> even lo))
      then Some (lo, e)
      else if round_trips x hi e then Some (hi, e) else None)"

fun shortest_from :: "float \<Rightarrow> nat \<Rightarrow> nat \<Rightarrow> (int \<times> int) option" where
  "shortest_from x n 0 = None"
| "shortest_from x n (Suc fuel) =
     (case digits_at x n of Some d \<Rightarrow> Some d | None \<Rightarrow> shortest_from x (Suc n) fuel)"

definition shortest_digits :: "float \<Rightarrow> (int \<times> int) option" where
  \<comment> \<open>17 significant digits identify every double\<close>
  "shortest_digits x = shortest_from x 1 17"

definition strip_zeros :: "string \<Rightarrow> string" where
  "strip_zeros ds = rev (dropWhile (\<lambda>c. c = CHR ''0'') (rev ds))"

definition float_repr :: "float \<Rightarrow> string option" where
  \<comment> \<open>\<open>repr\<close> of a finite float: fixed notation when the decimal point falls within
      \<open>-4 < decpt \<le> 16\<close>, exponent notation otherwise\<close>
  "float_repr x =
     (if x = 0 then Some ''0.0''
      else case shortest_digits \<bar>x\<bar> of
        None \<Rightarrow> None
      | Some (c, e) \<Rightarrow>
          let all = int_digits c;
              ds = strip_zeros all;
              decpt = int (length all) + e;
              body =
                (if decpt \<le> - 4 \<or> 16 < decpt then
                   take 1 ds @ (if 1 < length ds then ''.'' @ drop 1 ds else [])
                   @ ''e'' @ (if decpt - 1 < 0 then ''-'' else ''+'')
                   @ (if \<bar>decpt - 1\<bar> < 10 then ''0'' else []) @ int_digits \<bar>decpt - 1\<bar>
                 else if decpt \<le> 0 then ''0.'' @ replicate (nat (- decpt)) CHR ''0'' @ ds
                 else if int (length ds) \<le> decpt
                   then ds @ replicate (nat decpt - length ds) CHR ''0'' @ ''.0''
                 else take (nat decpt) ds @ ''.'' @ drop (nat decpt) ds)
          in Some ((if x < 0 then ''-'' else []) @ body))"

definition hex_char :: "int \<Rightarrow> char" where
  "hex_char d = (if d < 10 then char_of (48 + d) else char_of (87 + d))"

definition escape_char :: "char \<Rightarrow> char \<Rightarrow> string option" where
  \<comment> \<open>one character inside a string \<open>repr\<close> quoted with \<open>q\<close>; a byte beyond ASCII
      needs the Unicode tables and is left out\<close>
  "escape_char q c =
     (let n = of_char c :: int in
      if c = q \<or> c = CHR 0x5C then Some [CHR 0x5C, c]
      else if n = 9 then Some [CHR 0x5C, CHR ''t'']
      else if n = 10 then Some [CHR 0x5C, CHR ''n'']
      else if n = 13 then Some [CHR 0x5C, CHR ''r'']
      else if n < 32 \<or> n = 127 then Some [CHR 0x5C, CHR ''x'', hex_char (n div 16), hex_char (n mod 16)]
      else if n < 127 then Some [c]
      else None)"

fun those_concat :: "string option list \<Rightarrow> string option" where
  "those_concat [] = Some []"
| "those_concat (None # rs) = None"
| "those_concat (Some r # rs) = map_option ((@) r) (those_concat rs)"

definition str_repr :: "string \<Rightarrow> string option" where
  \<comment> \<open>single quotes, unless the string has a single quote and no double quote\<close>
  "str_repr s =
     (let q = (if CHR 0x27 \<in> set s \<and> CHR 0x22 \<notin> set s then CHR 0x22 else CHR 0x27) in
      map_option (\<lambda>body. [q] @ body @ [q]) (those_concat (map (escape_char q) s)))"

fun str_join :: "string \<Rightarrow> string list \<Rightarrow> string" where
  "str_join sep [] = []"
| "str_join sep [x] = x"
| "str_join sep (x # y # ys) = x @ sep @ str_join sep (y # ys)"

fun py_repr :: "py_value \<Rightarrow> string option" where
  "py_repr (PyStr s) = str_repr s"
| "py_repr (PyFloat x) = float_repr x"
| "py_repr (PyList vs) =
     map_option (\<lambda>rs. ''['' @ str_join '', '' rs @ '']'') (those (map py_repr vs))"
| "py_repr (PyDict kvs) =
     map_option (\<lambda>rs. ''{'' @ str_join '', '' rs @ ''}'')
       (those (map (\<lambda>(k, v).
          case str_repr k of None \<Rightarrow> None
          | Some a \<Rightarrow> map_option (\<lambda>b. a @ '': '' @ b) (py_repr v)) kvs))"

definition json_data :: "(string \<times> py_value) list" where
  "json_data =
     [(''meilleur_modele'', PyStr ''XGBoost''),
      (''f1_score_max'', PyFloat (float_lit (894 / 10))),
      (''features_importantes'', PyList [PyStr ''thalach'', PyStr ''oldpeak'', PyStr ''cp''])]"

definition json_download :: "loaded \<Rightarrow> (py_error + prediction) option \<Rightarrow> string option" where
  \<comment> \<open>\<open>str(json_data)\<close>, the data of the JSON download button. Tab 4 runs after the
      dataset is loaded and after the form is (or is not) submitted; it reads neither.\<close>
  "json_download loaded_data prediction = py_repr (PyDict json_data)"

section \<open>Properties of the rounding\<close>

lemma rne_of_int: "rne (of_int n) = n"
  by (simp add: rne_def)

lemma rne_range: "\<lfloor>x\<rfloor> \<le> rne x \<and> rne x \<le> \<lfloor>x\<rfloor> + 1"
  by (simp add: rne_def Let_def)

lemma rne_mono:
  assumes "x \<le> y"
  shows "rne x \<le> rne y"
proof (cases "\<lfloor>x\<rfloor> = \<lfloor>y\<rfloor>")
  case True
  with assms show ?thesis
    by (simp add: rne_def Let_def)
next
  case False
  with assms have "\<lfloor>x\<rfloor> + 1 \<le> \<lfloor>y\<rfloor>"
    using floor_mono [of x y] by linarith
  with rne_range [of x] rne_range [of y] show ?thesis
    by linarith
qed

lemma rne_ge: "of_int n \<le> x \<Longrightarrow> n \<le> rne x"
  using rne_mono [of "of_int n" x] by (simp add: rne_of_int)

lemma rne_le: "x \<le> of_int n \<Longrightarrow> rne x \<le> n"
  using rne_mono [of x "of_int n"] by (simp add: rne_of_int)

lemma bitlen_powi_bounds:
  assumes "0 < p"
  shows "(2::rat) powi (bitlen p - 1) \<le> of_int p" and "of_int p < (2::rat) powi bitlen p"
proof -
  from assms have b: "1 \<le> bitlen p"
    by (simp add: bitlen_alt_def)
  from bitlen_bounds [OF assms] have lo: "2 ^ nat (bitlen p - 1) \<le> p" and hi: "p < 2 ^ nat (bitlen p)"
    by simp_all
  from lo have "(of_int (2 ^ nat (bitlen p - 1)) :: rat) \<le> of_int p"
    by (simp only: of_int_le_iff)
  with b show "(2::rat) powi (bitlen p - 1) \<le> of_int p"
    by (simp add: power_int_def)
  from hi have "(of_int p :: rat) < of_int (2 ^ nat (bitlen p))"
    by (simp only: of_int_less_iff)
  with b show "of_int p < (2::rat) powi bitlen p"
    by (simp add: power_int_def)
qed

lemma ilog2_bounds:
  assumes "0 < x"
  shows "2 powi ilog2 x \<le> x" and "x < 2 powi (ilog2 x + 1)"
proof -
  obtain p q where pq: "quotient_of x = (p, q)"
    by (cases "quotient_of x")
  then have q: "0 < q" and x: "x = of_int p / of_int q"
    by (simp_all add: quotient_of_denom_pos quotient_of_div)
  with assms have p: "0 < p"
    by (simp add: zero_less_divide_iff)
  define k where "k = bitlen p - bitlen q"
  have il: "ilog2 x = (if 2 powi k \<le> x then k else k - 1)"
    by (simp add: ilog2_def pq k_def Let_def)
  have qpos: "(0::rat) < of_int q" using q by simp
  have "(2::rat) powi (k - 1) = 2 powi (bitlen p - 1) / 2 powi bitlen q"
    by (simp add: k_def power_int_diff)
  also have "\<dots> \<le> of_int p / 2 powi bitlen q"
    using bitlen_powi_bounds(1) [OF p] by (simp add: divide_right_mono)
  also have "\<dots> \<le> of_int p / of_int q"
    using bitlen_powi_bounds(2) [OF q] p qpos by (simp add: frac_le)
  finally have lo: "2 powi (k - 1) \<le> x"
    by (simp add: x)
  have "x = of_int p / of_int q" by (fact x)
  also have "\<dots> < 2 powi bitlen p / of_int q"
    using bitlen_powi_bounds(2) [OF p] qpos by (simp add: divide_strict_right_mono)
  also have "\<dots> \<le> 2 powi bitlen p / 2 powi (bitlen q - 1)"
    using bitlen_powi_bounds(1) [OF q] by (simp add: frac_le)
  also have "\<dots> = 2 powi (k + 1)"
  proof -
    have "k + 1 = bitlen p - (bitlen q - 1)" by (simp add: k_def)
    then have "(2::rat) powi (k + 1) = 2 powi (bitlen p - (bitlen q - 1))"
      by (rule arg_cong)
    also have "\<dots> = 2 powi bitlen p / 2 powi (bitlen q - 1)"
      by (rule power_int_diff) simp
    finally show ?thesis by (rule sym)
  qed
  finally have hi: "x < 2 powi (k + 1)" .
  show "2 powi ilog2 x \<le> x"
    using lo by (simp add: il)
  show "x < 2 powi (ilog2 x + 1)"
    using hi by (auto simp add: il not_le)
qed

lemma ilog2_mono:
  assumes "0 < x" "x \<le> y"
  shows "ilog2 x \<le> ilog2 y"
proof -
  have "(2::rat) powi ilog2 x \<le> x"
    using ilog2_bounds(1) assms by simp
  also have "\<dots> \<le> y" by fact
  also have "\<dots> < 2 powi (ilog2 y + 1)"
    using ilog2_bounds(2) [of y] assms by simp
  finally have lt: "(2::rat) powi ilog2 x < 2 powi (ilog2 y + 1)" .
  show ?thesis
  proof (rule ccontr)
    assume "\<not> ilog2 x \<le> ilog2 y"
    then have "ilog2 y + 1 \<le> ilog2 x" by simp
    then have "(2::rat) powi (ilog2 y + 1) \<le> 2 powi ilog2 x"
      by (rule power_int_increasing) simp
    with lt show False by simp
  qed
qed

lemma rne_minus: "rne (- x) = - rne x"
proof (cases "x = of_int \<lfloor>x\<rfloor>")
  case True
  then have "rne (- x) = rne (of_int (- \<lfloor>x\<rfloor>))" by simp
  also have "\<dots> = - \<lfloor>x\<rfloor>" by (rule rne_of_int)
  also have "\<dots> = - rne (of_int \<lfloor>x\<rfloor>)" by (simp add: rne_of_int)
  finally show ?thesis using True by simp
next
  case False
  then have fl: "\<lfloor>- x\<rfloor> = - \<lfloor>x\<rfloor> - 1"
    by (simp add: floor_minus ceiling_altdef)
  have "x - of_int \<lfloor>x\<rfloor> < 1" by linarith
  then show ?thesis
    unfolding rne_def Let_def fl by (auto simp: algebra_simps)
qed

lemma mantissa_bounds:
  assumes "x \<noteq> 0"
  shows "\<bar>x\<bar> < 2 powi (ulp_exp x + 53)"
    and "- 1074 < ulp_exp x \<Longrightarrow> 2 powi (ulp_exp x + 52) \<le> \<bar>x\<bar>"
proof -
  have pos: "0 < \<bar>x\<bar>" using assms by simp
  have "\<bar>x\<bar> < 2 powi (ilog2 \<bar>x\<bar> + 1)"
    using ilog2_bounds(2) [OF pos] .
  also have "\<dots> \<le> 2 powi (ulp_exp x + 53)"
    by (rule power_int_increasing) (simp_all add: ulp_exp_def)
  finally show "\<bar>x\<bar> < 2 powi (ulp_exp x + 53)" .
  assume "- 1074 < ulp_exp x"
  then have "ulp_exp x + 52 = ilog2 \<bar>x\<bar>"
    by (simp add: ulp_exp_def max_def split: if_splits)
  then show "2 powi (ulp_exp x + 52) \<le> \<bar>x\<bar>"
    using ilog2_bounds(1) [OF pos] by simp
qed

lemma ulp_exp_mono: "x \<noteq> 0 \<Longrightarrow> \<bar>x\<bar> \<le> \<bar>y\<bar> \<Longrightarrow> ulp_exp x \<le> ulp_exp y"
  using ilog2_mono [of "\<bar>x\<bar>" "\<bar>y\<bar>"] by (simp add: ulp_exp_def max_def)

lemma rnd_minus: "rnd (- x) = - rnd x"
  by (simp add: rnd_def ulp_exp_def rne_minus)

lemma rnd_pos_bounds:
  assumes "0 < x"
  shows "0 \<le> rnd x"
    and "rnd x \<le> 2 powi (ulp_exp x + 53)"
    and "- 1074 < ulp_exp x \<Longrightarrow> 2 powi (ulp_exp x + 52) \<le> rnd x"
proof -
  define e where "e = ulp_exp x"
  have x0: "x \<noteq> 0" and ax: "\<bar>x\<bar> = x" using assms by simp_all
  have p: "(0::rat) < 2 powi e" by (simp add: zero_less_power_int)
  have r: "rnd x = of_int (rne (x / 2 powi e)) * 2 powi e"
    using x0 by (simp add: rnd_def e_def)
  have "of_int 0 \<le> x / 2 powi e" using assms p by simp
  then have "0 \<le> rne (x / 2 powi e)" by (rule rne_ge)
  then show "0 \<le> rnd x" using p by (simp add: r)
  have "x < 2 powi (e + 53)"
    using mantissa_bounds(1) [OF x0] by (simp add: ax e_def)
  also have "\<dots> = 2 powi e * 2 ^ 53"
    by (simp add: power_int_add)
  finally have "x / 2 powi e \<le> of_int (2 ^ 53)"
    using p by (simp add: pos_divide_le_eq mult.commute)
  then have "rne (x / 2 powi e) \<le> 2 ^ 53" by (rule rne_le)
  then have "(of_int (rne (x / 2 powi e)) :: rat) \<le> of_int (2 ^ 53)"
    by (simp only: of_int_le_iff)
  then have "rnd x \<le> of_int (2 ^ 53) * 2 powi e"
    unfolding r using p by (simp only: mult_le_cancel_right_pos)
  also have "\<dots> = 2 powi (e + 53)"
    by (simp add: power_int_add)
  finally show "rnd x \<le> 2 powi (ulp_exp x + 53)" by (simp add: e_def)
  assume "- 1074 < ulp_exp x"
  then have "2 powi (e + 52) \<le> x"
    using mantissa_bounds(2) [OF x0] by (simp add: ax e_def)
  moreover have "(2::rat) powi (e + 52) = 2 powi e * 2 ^ 52"
    by (simp add: power_int_add)
  ultimately have "of_int (2 ^ 52) \<le> x / 2 powi e"
    using p by (simp add: pos_le_divide_eq mult.commute)
  then have "2 ^ 52 \<le> rne (x / 2 powi e)" by (rule rne_ge)
  then have "(of_int (2 ^ 52) :: rat) \<le> of_int (rne (x / 2 powi e))"
    by (simp only: of_int_le_iff)
  then have "of_int (2 ^ 52) * 2 powi e \<le> rnd x"
    unfolding r using p by (simp only: mult_le_cancel_right_pos)
  moreover have "(of_int (2 ^ 52) :: rat) * 2 powi e = 2 powi (e + 52)"
    by (simp add: power_int_add)
  ultimately show "2 powi (ulp_exp x + 52) \<le> rnd x" by (simp add: e_def)
qed

lemma rnd_mono_pos:
  assumes "0 < x" "x \<le> y"
  shows "rnd x \<le> rnd y"
proof -
  have y: "0 < y" using assms by simp
  have le: "ulp_exp x \<le> ulp_exp y"
    using assms by (intro ulp_exp_mono) simp_all
  show ?thesis
  proof (cases "ulp_exp x = ulp_exp y")
    case True
    have p: "(0::rat) < 2 powi ulp_exp y" by (simp add: zero_less_power_int)
    have "x / 2 powi ulp_exp y \<le> y / 2 powi ulp_exp y"
      using assms p by (simp add: divide_right_mono)
    then have "rne (x / 2 powi ulp_exp y) \<le> rne (y / 2 powi ulp_exp y)"
      by (rule rne_mono)
    then have "(of_int (rne (x / 2 powi ulp_exp y)) :: rat) \<le> of_int (rne (y / 2 powi ulp_exp y))"
      by (simp only: of_int_le_iff)
    then have "(of_int (rne (x / 2 powi ulp_exp y)) :: rat) * 2 powi ulp_exp y
        \<le> of_int (rne (y / 2 powi ulp_exp y)) * 2 powi ulp_exp y"
      using p by (simp only: mult_le_cancel_right_pos)
    then show ?thesis
      using assms y True by (simp add: rnd_def)
  next
    case False
    have "- 1074 \<le> ulp_exp x" by (simp add: ulp_exp_def)
    with False le have lt: "ulp_exp x + 53 \<le> ulp_exp y + 52" and sub: "- 1074 < ulp_exp y"
      by linarith+
    have "rnd x \<le> 2 powi (ulp_exp x + 53)"
      by (rule rnd_pos_bounds(2) [OF assms(1)])
    also have "\<dots> \<le> 2 powi (ulp_exp y + 52)"
      using lt by (rule power_int_increasing) simp
    also have "\<dots> \<le> rnd y"
      by (rule rnd_pos_bounds(3) [OF y sub])
    finally show ?thesis .
  qed
qed

lemma rnd_mono:
  assumes "x \<le> y"
  shows "rnd x \<le> rnd y"
proof -
  consider "0 < x" | "x \<le> 0" "0 \<le> y" | "y < 0" by linarith
  then show ?thesis
  proof cases
    case 1
    then show ?thesis using assms by (rule rnd_mono_pos)
  next
    case 2
    have "rnd x \<le> 0"
    proof (cases "x = 0")
      case True then show ?thesis by (simp add: rnd_def)
    next
      case False
      with 2 have "0 < - x" by simp
      then have "0 \<le> rnd (- x)" by (rule rnd_pos_bounds(1))
      then show ?thesis by (simp add: rnd_minus)
    qed
    moreover have "0 \<le> rnd y"
    proof (cases "y = 0")
      case True then show ?thesis by (simp add: rnd_def)
    next
      case False
      with 2 have "0 < y" by simp
      then show ?thesis by (rule rnd_pos_bounds(1))
    qed
    ultimately show ?thesis by simp
  next
    case 3
    then have "0 < - y" and "- y \<le> - x" using assms by simp_all
    then have "rnd (- y) \<le> rnd (- x)" by (rule rnd_mono_pos)
    then show ?thesis by (simp add: rnd_minus)
  qed
qed

subsection \<open>The rounding returns a nearest double\<close>

text \<open>
  A double is \<open>k \<times> 2\<^sup>e\<close> with \<open>\<bar>k\<bar> \<le> 2\<^sup>5\<^sup>3\<close> and \<open>e \<ge> -1074\<close>. The rounding returns a double,
  no double is nearer to its argument, and it leaves a double unchanged; where two
  doubles are equally near, \<open>rne\<close> takes the even mantissa.
\<close>

lemma rne_nearest: "\<bar>of_int (rne m) - m\<bar> \<le> \<bar>of_int n - m\<bar>"
proof -
  define d where "d = m - of_int \<lfloor>m\<rfloor>"
  have d: "0 \<le> d" "d < 1" unfolding d_def by linarith+
  have r: "\<bar>of_int (rne m) - m\<bar> \<le> d" "\<bar>of_int (rne m) - m\<bar> \<le> 1 - d"
    using d unfolding d_def rne_def Let_def by (auto simp: abs_le_iff)
  show ?thesis
  proof (cases "n \<le> \<lfloor>m\<rfloor>")
    case True
    then have "(of_int n :: rat) \<le> of_int \<lfloor>m\<rfloor>" by (simp only: of_int_le_iff)
    then have "d \<le> \<bar>of_int n - m\<bar>" unfolding d_def by linarith
    with r(1) show ?thesis by linarith
  next
    case False
    then have "\<lfloor>m\<rfloor> + 1 \<le> n" by simp
    then have "(of_int (\<lfloor>m\<rfloor> + 1) :: rat) \<le> of_int n" by (simp only: of_int_le_iff)
    then have "1 - d \<le> \<bar>of_int n - m\<bar>" unfolding d_def by simp
    with r(2) show ?thesis by linarith
  qed
qed

lemma rnd_grid_nearest:
  assumes "x \<noteq> 0"
  shows "\<bar>rnd x - x\<bar> \<le> \<bar>of_int n * 2 powi ulp_exp x - x\<bar>"
proof -
  define e where "e = ulp_exp x"
  define m where "m = x / 2 powi e"
  have p: "(0::rat) < 2 powi e" by (simp add: zero_less_power_int)
  have x: "x = m * 2 powi e" using p by (simp add: m_def)
  have "rnd x - x = (of_int (rne m) - m) * 2 powi e"
    using assms by (simp add: rnd_def e_def [symmetric] m_def [symmetric] x [symmetric] algebra_simps)
  then have "\<bar>rnd x - x\<bar> = \<bar>of_int (rne m) - m\<bar> * 2 powi e"
    using p by (simp add: abs_mult)
  also have "\<dots> \<le> \<bar>of_int n - m\<bar> * 2 powi e"
    using rne_nearest [of m n] p by (simp only: mult_le_cancel_right_pos)
  also have "\<dots> = \<bar>(of_int n - m) * 2 powi e\<bar>"
    using p by (simp add: abs_mult)
  also have "(of_int n - m) * 2 powi e = of_int n * 2 powi e - x"
    using x by (simp add: algebra_simps)
  finally show ?thesis by (simp add: e_def)
qed

lemma rnd_nearest:
  assumes k: "\<bar>k\<bar> \<le> 2 ^ 53" and e: "- 1074 \<le> e"
  shows "\<bar>rnd x - x\<bar> \<le> \<bar>of_int k * 2 powi e - x\<bar>"
proof (cases "x = 0")
  case True
  then show ?thesis by (simp add: rnd_def)
next
  case False
  define ex where "ex = ulp_exp x"
  have p: "(0::rat) < 2 powi ex" by (simp add: zero_less_power_int)
  show ?thesis
  proof (cases "ex \<le> e")
    case True
    define j where "j = nat (e - ex)"
    have "(2::rat) powi e = 2 powi (int j + ex)"
      using True by (simp add: j_def)
    also have "\<dots> = 2 ^ j * 2 powi ex"
      by (simp add: power_int_add)
    finally have eq: "(of_int k :: rat) * 2 powi e = of_int (k * 2 ^ j) * 2 powi ex"
      by simp
    show ?thesis
      unfolding eq ex_def by (rule rnd_grid_nearest [OF \<open>x \<noteq> 0\<close>])
  next
    case False
    with e have sub: "- 1074 < ulp_exp x" and lt: "e + 53 \<le> ex + 52"
      by (simp_all add: ex_def)
    have big: "2 powi (ex + 52) \<le> \<bar>x\<bar>"
      using mantissa_bounds(2) [OF \<open>x \<noteq> 0\<close> sub] by (simp add: ex_def)
    have "\<bar>(of_int k :: rat) * 2 powi e\<bar> = \<bar>of_int k\<bar> * 2 powi e"
      by (simp add: abs_mult)
    also have "\<dots> \<le> 2 ^ 53 * 2 powi e"
    proof -
      from k have "(of_int \<bar>k\<bar> :: rat) \<le> of_int (2 ^ 53)" by (simp only: of_int_le_iff)
      then show ?thesis by (simp add: mult_right_mono)
    qed
    also have "\<dots> = 2 powi (e + 53)"
      by (simp add: power_int_add)
    also have "\<dots> \<le> 2 powi (ex + 52)"
      using lt by (rule power_int_increasing) simp
    finally have small: "\<bar>(of_int k :: rat) * 2 powi e\<bar> \<le> 2 powi (ex + 52)" .
    define s :: int where "s = (if 0 < x then 1 else - 1)"
    have b: "(of_int (s * 2 ^ 52) :: rat) * 2 powi ex = of_int s * 2 powi (ex + 52)"
      by (simp add: power_int_add)
    have "\<bar>rnd x - x\<bar> \<le> \<bar>of_int (s * 2 ^ 52) * 2 powi ex - x\<bar>"
      using rnd_grid_nearest [OF \<open>x \<noteq> 0\<close>, of "s * 2 ^ 52"] by (simp only: ex_def)
    also have "\<dots> = \<bar>x\<bar> - 2 powi (ex + 52)"
      unfolding b using big \<open>x \<noteq> 0\<close> by (auto simp: s_def abs_if split: if_splits)
    also have "\<dots> \<le> \<bar>x\<bar> - \<bar>of_int k * 2 powi e\<bar>"
      using small by simp
    also have "\<dots> \<le> \<bar>of_int k * 2 powi e - x\<bar>"
      by linarith
    finally show ?thesis .
  qed
qed

lemma rnd_double:
  assumes "\<bar>k\<bar> \<le> 2 ^ 53" and "- 1074 \<le> e"
  shows "rnd (of_int k * 2 powi e) = of_int k * 2 powi e"
  using rnd_nearest [OF assms, of "of_int k * 2 powi e"] by simp

lemma rnd_is_double:
  "\<exists>k e. rnd x = of_int k * 2 powi e \<and> \<bar>k\<bar> \<le> 2 ^ 53 \<and> - 1074 \<le> e"
proof (cases "x = 0")
  case True
  have "rnd x = of_int 0 * 2 powi 0 \<and> \<bar>0::int\<bar> \<le> 2 ^ 53 \<and> - 1074 \<le> (0::int)"
    using True by (simp add: rnd_def)
  then show ?thesis by blast
next
  case False
  define e where "e = ulp_exp x"
  define m where "m = x / 2 powi e"
  have p: "(0::rat) < 2 powi e" by (simp add: zero_less_power_int)
  have "\<bar>x\<bar> < 2 powi (e + 53)"
    using mantissa_bounds(1) [OF False] by (simp add: e_def)
  also have "\<dots> = 2 ^ 53 * 2 powi e" by (simp add: power_int_add)
  finally have "\<bar>m\<bar> < 2 ^ 53"
    using p by (simp add: m_def pos_divide_less_eq)
  then have up: "m \<le> of_int (2 ^ 53)" and dn: "of_int (- (2 ^ 53)) \<le> m" by simp_all
  from up have "rne m \<le> 2 ^ 53" by (rule rne_le)
  moreover from dn have "- (2 ^ 53) \<le> rne m" by (rule rne_ge)
  ultimately have "\<bar>rne m\<bar> \<le> 2 ^ 53" by simp
  moreover have "rnd x = of_int (rne m) * 2 powi e"
    using False by (simp add: rnd_def e_def m_def)
  moreover have "- 1074 \<le> e" by (simp add: e_def ulp_exp_def)
  ultimately show ?thesis by blast
qed

lemma rnd_idem: "rnd (rnd x) = rnd x"
proof -
  obtain k e where "rnd x = of_int k * 2 powi e" "\<bar>k\<bar> \<le> 2 ^ 53" "- 1074 \<le> e"
    using rnd_is_double by blast
  then show ?thesis by (simp add: rnd_double)
qed

section \<open>Properties of the scorer\<close>

subsection \<open>Monotonicity of the float operations\<close>

lemma int_truediv_mono: "a \<le> a' \<Longrightarrow> 0 < b \<Longrightarrow> int_truediv a b \<le> int_truediv a' b"
  unfolding int_truediv_def by (rule rnd_mono) (simp add: divide_right_mono)

lemma float_add_mono: "x \<le> x' \<Longrightarrow> y \<le> y' \<Longrightarrow> float_add x y \<le> float_add x' y'"
  unfolding float_add_def by (rule rnd_mono) simp

lemma float_sub_mono: "x \<le> x' \<Longrightarrow> y' \<le> y \<Longrightarrow> float_sub x y \<le> float_sub x' y'"
  unfolding float_sub_def by (rule rnd_mono) simp

lemma float_truediv_mono: "x \<le> x' \<Longrightarrow> 0 < y \<Longrightarrow> float_truediv x y \<le> float_truediv x' y"
  unfolding float_truediv_def by (rule rnd_mono) (simp add: divide_right_mono)

lemma risque_mono:
  assumes "a \<le> a'" "c \<le> c'" "t' \<le> t"
  shows "risque a c t \<le> risque a' c' t'"
  unfolding risque_def using assms
  by (intro float_sub_mono float_add_mono int_truediv_mono) simp_all

lemma float_of_int_2: "float_of_int 2 = 2"
  by code_simp

lemma raw_score_mono:
  assumes "b \<le> b'" "r \<le> r'"
  shows "raw_score b r \<le> raw_score b' r'"
  unfolding raw_score_def float_of_int_2 using assms
  by (intro float_sub_mono float_add_mono float_truediv_mono) simp_all

lemma float_lit_mono: "p \<le> q \<Longrightarrow> float_lit p \<le> float_lit q"
  unfolding float_lit_def by (rule rnd_mono)

subsection \<open>Distance from the exact formula\<close>

text \<open>
  Every rounding of a value below 2 in magnitude moves it by at most \<open>2\<^sup>-\<^sup>5\<^sup>3\<close>. The
  risk goes through seven roundings, the value before clamping through a few more.
\<close>

lemma rne_error: "\<bar>of_int (rne x) - x\<bar> \<le> 1 / 2"
proof -
  have "of_int \<lfloor>x\<rfloor> \<le> x" and "x < of_int \<lfloor>x\<rfloor> + 1"
    by linarith+
  then show ?thesis
    by (auto simp: rne_def Let_def abs_le_iff)
qed

lemma rnd_error:
  assumes "\<bar>x\<bar> < 2"
  shows "\<bar>rnd x - x\<bar> \<le> 1 / 2 ^ 53"
proof (cases "x = 0")
  case True
  then show ?thesis by (simp add: rnd_def)
next
  case False
  define e where "e = ulp_exp x"
  define m where "m = x / 2 powi e"
  have p: "(0::rat) < 2 powi e" by (simp add: zero_less_power_int)
  have pos: "0 < \<bar>x\<bar>" using False by simp
  have "(2::rat) powi ilog2 \<bar>x\<bar> \<le> \<bar>x\<bar>" by (rule ilog2_bounds(1) [OF pos])
  also have "\<dots> < 2 powi 1" using assms by simp
  finally have lt: "(2::rat) powi ilog2 \<bar>x\<bar> < 2 powi 1" .
  have "ilog2 \<bar>x\<bar> < 1"
  proof (rule ccontr)
    assume "\<not> ilog2 \<bar>x\<bar> < 1"
    then have "1 \<le> ilog2 \<bar>x\<bar>" by simp
    then have "(2::rat) powi 1 \<le> 2 powi ilog2 \<bar>x\<bar>"
      by (rule power_int_increasing) simp
    with lt show False by simp
  qed
  then have e: "e \<le> - 52"
    by (simp add: e_def ulp_exp_def)
  have x: "x = m * 2 powi e"
    using p by (simp add: m_def)
  have "rnd x - x = (of_int (rne m) - m) * 2 powi e"
    using False by (simp add: rnd_def e_def [symmetric] m_def [symmetric] x [symmetric] algebra_simps)
  then have "\<bar>rnd x - x\<bar> = \<bar>of_int (rne m) - m\<bar> * 2 powi e"
    using p by (simp add: abs_mult)
  also have "\<dots> \<le> 1 / 2 * 2 powi e"
    using rne_error [of m] p by (simp only: mult_le_cancel_right_pos)
  also have "\<dots> \<le> 1 / 2 * 2 powi (- 52)"
    using e by (intro mult_left_mono power_int_increasing) simp_all
  also have "\<dots> = 1 / 2 ^ 53"
    by (simp add: power_int_def power_one_over divide_simps)
  finally show ?thesis .
qed

lemma float_add_error:
  assumes "\<bar>x + y\<bar> < 2"
  shows "\<bar>float_add x y - (x + y)\<bar> \<le> 1 / 2 ^ 53"
  unfolding float_add_def using assms by (rule rnd_error)

lemma float_sub_error:
  assumes "\<bar>x - y\<bar> < 2"
  shows "\<bar>float_sub x y - (x - y)\<bar> \<le> 1 / 2 ^ 53"
  unfolding float_sub_def using assms by (rule rnd_error)

lemma int_truediv_error:
  assumes "\<bar>of_int a / of_int b :: rat\<bar> < 2"
  shows "\<bar>int_truediv a b - of_int a / of_int b\<bar> \<le> 1 / 2 ^ 53"
  unfolding int_truediv_def using assms by (rule rnd_error)

lemma float_lit_error:
  assumes "\<bar>q\<bar> < 2"
  shows "\<bar>float_lit q - q\<bar> \<le> 1 / 2 ^ 53"
  unfolding float_lit_def using assms by (rule rnd_error)

lemma risque_close_to_exact:
  assumes "in_sliders age chol thalach cp"
  shows "\<bar>risque age chol thalach - risque_exact age chol thalach\<bar> \<le> 7 / 2 ^ 53"
proof -
  define u :: rat where "u = 1 / 2 ^ 53"
  have u: "0 < u" "u < 1 / 100" by (simp_all add: u_def)
  define x1 :: rat where "x1 = of_int (age - 50) / of_int 200"
  define x2 :: rat where "x2 = of_int (chol - 250) / of_int 1500"
  define x3 :: rat where "x3 = of_int (thalach - 150) / of_int 400"
  from assms have a: "- 30 \<le> age - 50" "age - 50 \<le> 30"
    and c: "- 150 \<le> chol - 250" "chol - 250 \<le> 350"
    and t: "- 80 \<le> thalach - 150" "thalach - 150 \<le> 70"
    by (simp_all add: in_sliders_def)
  have b1: "\<bar>x1\<bar> \<le> 3 / 20"
  proof -
    from a have "(of_int (- 30) :: rat) \<le> of_int (age - 50)" "(of_int (age - 50) :: rat) \<le> of_int 30"
      by (simp_all only: of_int_le_iff)
    then show ?thesis unfolding x1_def by (simp add: abs_le_iff)
  qed
  have b2: "\<bar>x2\<bar> \<le> 7 / 30"
  proof -
    from c have "(of_int (- 150) :: rat) \<le> of_int (chol - 250)" "(of_int (chol - 250) :: rat) \<le> of_int 350"
      by (simp_all only: of_int_le_iff)
    then show ?thesis unfolding x2_def by (simp add: abs_le_iff)
  qed
  have b3: "\<bar>x3\<bar> \<le> 1 / 5"
  proof -
    from t have "(of_int (- 80) :: rat) \<le> of_int (thalach - 150)" "(of_int (thalach - 150) :: rat) \<le> of_int 70"
      by (simp_all only: of_int_le_iff)
    then show ?thesis unfolding x3_def by (simp add: abs_le_iff)
  qed
  define l where "l = float_lit (4 / 10)"
  define q1 where "q1 = int_truediv (age - 50) 200"
  define q2 where "q2 = int_truediv (chol - 250) 1500"
  define q3 where "q3 = int_truediv (thalach - 150) 400"
  define s1 where "s1 = float_add l q1"
  define s2 where "s2 = float_add s1 q2"
  have el: "\<bar>l - 4 / 10\<bar> \<le> u"
    unfolding l_def u_def by (rule float_lit_error) simp
  have e1: "\<bar>q1 - x1\<bar> \<le> u"
    unfolding q1_def u_def x1_def using b1 by (intro int_truediv_error) (simp add: x1_def)
  have e2: "\<bar>q2 - x2\<bar> \<le> u"
    unfolding q2_def u_def x2_def using b2 by (intro int_truediv_error) (simp add: x2_def)
  have e3: "\<bar>q3 - x3\<bar> \<le> u"
    unfolding q3_def u_def x3_def using b3 by (intro int_truediv_error) (simp add: x3_def)
  have "\<bar>l + q1\<bar> < 2" using el e1 b1 u by linarith
  then have "\<bar>s1 - (l + q1)\<bar> \<le> u"
    unfolding s1_def u_def by (rule float_add_error)
  with el e1 have es1: "\<bar>s1 - (4 / 10 + x1)\<bar> \<le> 3 * u" by linarith
  have "\<bar>s1 + q2\<bar> < 2" using es1 e2 b1 b2 u by linarith
  then have "\<bar>s2 - (s1 + q2)\<bar> \<le> u"
    unfolding s2_def u_def by (rule float_add_error)
  with es1 e2 have es2: "\<bar>s2 - (4 / 10 + x1 + x2)\<bar> \<le> 5 * u" by linarith
  have "\<bar>s2 - q3\<bar> < 2" using es2 e3 b1 b2 b3 u by linarith
  then have "\<bar>float_sub s2 q3 - (s2 - q3)\<bar> \<le> u"
    unfolding u_def by (rule float_sub_error)
  with es2 e3 have "\<bar>float_sub s2 q3 - (4 / 10 + x1 + x2 - x3)\<bar> \<le> 7 * u" by linarith
  moreover have "risque age chol thalach = float_sub s2 q3"
    by (simp only: risque_def s2_def s1_def l_def q1_def q2_def q3_def)
  moreover have "risque_exact age chol thalach = 4 / 10 + x1 + x2 - x3"
    by (simp add: risque_exact_def x1_def x2_def x3_def)
  ultimately show ?thesis by (simp add: u_def)
qed

lemma float_truediv_error:
  assumes "\<bar>x / y\<bar> < 2"
  shows "\<bar>float_truediv x y - x / y\<bar> \<le> 1 / 2 ^ 53"
  unfolding float_truediv_def using assms by (rule rnd_error)

lemma risque_exact_bound:
  assumes "in_sliders age chol thalach cp"
  shows "\<bar>risque_exact age chol thalach\<bar> \<le> 1"
proof -
  from assms have "(of_int 20 :: rat) \<le> of_int age" "(of_int age :: rat) \<le> of_int 80"
    "(of_int 100 :: rat) \<le> of_int chol" "(of_int chol :: rat) \<le> of_int 600"
    "(of_int 70 :: rat) \<le> of_int thalach" "(of_int thalach :: rat) \<le> of_int 220"
    by (simp_all only: of_int_le_iff in_sliders_def)
  then show ?thesis
    by (simp add: risque_exact_def abs_le_iff divide_simps)
qed

lemma baseScoreOf_error: "\<bar>baseScoreOf m - base_exact m\<bar> \<le> 1 / 2 ^ 53"
  by (cases m) (simp_all only: baseScoreOf.simps base_exact.simps, (rule float_lit_error, simp)+)

lemma base_exact_range: "84 / 100 \<le> base_exact m" "base_exact m \<le> 89 / 100"
  by (cases m; simp)+

lemma raw_score_close_to_exact:
  assumes "in_sliders age chol thalach cp"
  shows "\<bar>raw_score (baseScoreOf m) (risque age chol thalach)
          - raw_score_exact (base_exact m) (risque_exact age chol thalach)\<bar> \<le> 8 / 2 ^ 53"
proof -
  define u :: rat where "u = 1 / 2 ^ 53"
  have u: "0 < u" "u < 1 / 100" by (simp_all add: u_def)
  define r where "r = risque age chol thalach"
  define rx where "rx = risque_exact age chol thalach"
  define b where "b = baseScoreOf m"
  define bx where "bx = base_exact m"
  define l where "l = float_lit (4 / 10)"
  define d where "d = float_sub r l"
  define h where "h = float_truediv d 2"
  have er: "\<bar>r - rx\<bar> \<le> 7 * u"
    unfolding r_def rx_def u_def using risque_close_to_exact [OF assms] by simp
  have rb: "\<bar>rx\<bar> \<le> 1"
    unfolding rx_def by (rule risque_exact_bound [OF assms])
  have eb: "\<bar>b - bx\<bar> \<le> u"
    unfolding b_def bx_def u_def by (rule baseScoreOf_error)
  have bb: "84 / 100 \<le> bx" "bx \<le> 89 / 100"
    unfolding bx_def by (rule base_exact_range)+
  have el: "\<bar>l - 4 / 10\<bar> \<le> u"
    unfolding l_def u_def by (rule float_lit_error) simp
  have "\<bar>r - l\<bar> < 2" using er rb el u by linarith
  then have "\<bar>d - (r - l)\<bar> \<le> u"
    unfolding d_def u_def by (rule float_sub_error)
  with er el have ed: "\<bar>d - (rx - 4 / 10)\<bar> \<le> 9 * u" by linarith
  define d2 where "d2 = d / 2"
  define hx where "hx = (rx - 4 / 10) / 2"
  from ed have ed2: "\<bar>d2 - hx\<bar> \<le> 9 / 2 * u"
    unfolding abs_le_iff d2_def hx_def by (simp add: field_simps)
  from rb have hb: "\<bar>hx\<bar> \<le> 1"
    unfolding abs_le_iff hx_def by (simp add: field_simps)
  have "\<bar>d2\<bar> < 2" using ed2 hb u by linarith
  then have "\<bar>h - d2\<bar> \<le> u"
    unfolding h_def u_def d2_def by (rule float_truediv_error)
  with ed2 have eh: "\<bar>h - hx\<bar> \<le> 11 / 2 * u" by linarith
  have "\<bar>b + h\<bar> < 2" using eh eb bb hb u by linarith
  then have "\<bar>float_add b h - (b + h)\<bar> \<le> u"
    unfolding u_def by (rule float_add_error)
  with eh eb have "\<bar>float_add b h - (bx + hx)\<bar> \<le> 8 * u" using u by linarith
  moreover have "raw_score (baseScoreOf m) (risque age chol thalach) = float_add b h"
    by (simp only: raw_score_def float_of_int_2 h_def d_def l_def b_def r_def)
  ultimately show ?thesis
    by (simp add: u_def raw_score_exact_def bx_def rx_def hx_def)
qed

subsection \<open>The scorer at three points\<close>

lemma risque_low_corner: "risque 20 100 220 = - (900719925474099 / 36028797018963968)"
proof -
  have q1: "int_truediv (20 - 50) 200 = - (5404319552844595 / 36028797018963968)" by code_simp
  have q2: "int_truediv (100 - 250) 1500 = - (3602879701896397 / 36028797018963968)" by code_simp
  have q3: "int_truediv (220 - 150) 400 = 3152519739159347 / 18014398509481984" by code_simp
  have s1: "float_add (float_lit (4 / 10)) (- (5404319552844595 / 36028797018963968)) = 1 / 4" by code_simp
  have s2: "float_add (1 / 4) (- (3602879701896397 / 36028797018963968)) = 5404319552844595 / 36028797018963968" by code_simp
  have s3: "float_sub (5404319552844595 / 36028797018963968) (3152519739159347 / 18014398509481984) = - (900719925474099 / 36028797018963968)" by code_simp
  show ?thesis unfolding risque_def q1 q2 q3 s1 s2 by (rule s3)
qed

lemma raw_score_low_corner: "raw_score (float_lit (84 / 100)) (- (900719925474099 / 36028797018963968)) = 1413004383087493 / 2251799813685248"
proof -
  have d: "float_sub (- (900719925474099 / 36028797018963968)) (float_lit (4 / 10)) = - (1914029841632461 / 4503599627370496)" by code_simp
  have h: "float_truediv (- (1914029841632461 / 4503599627370496)) (float_of_int 2) = - (1914029841632461 / 9007199254740992)" by code_simp
  have v: "float_add (float_lit (84 / 100)) (- (1914029841632461 / 9007199254740992)) = 1413004383087493 / 2251799813685248" by code_simp
  show ?thesis unfolding raw_score_def d h by (rule v)
qed
lemma risque_high_corner: "risque 80 600 70 = 1107134908395247 / 1125899906842624"
proof -
  have q1: "int_truediv (80 - 50) 200 = 5404319552844595 / 36028797018963968" by code_simp
  have q2: "int_truediv (600 - 250) 1500 = 4203359652212463 / 18014398509481984" by code_simp
  have q3: "int_truediv (70 - 150) 400 = - (3602879701896397 / 18014398509481984)" by code_simp
  have s1: "float_add (float_lit (4 / 10)) (5404319552844595 / 36028797018963968) = 2476979795053773 / 4503599627370496" by code_simp
  have s2: "float_add (2476979795053773 / 4503599627370496) (4203359652212463 / 18014398509481984) = 3527819708106889 / 4503599627370496" by code_simp
  have s3: "float_sub (3527819708106889 / 4503599627370496) (- (3602879701896397 / 18014398509481984)) = 1107134908395247 / 1125899906842624" by code_simp
  show ?thesis unfolding risque_def q1 q2 q3 s1 s2 by (rule s3)
qed

lemma raw_score_high_corner: "raw_score (float_lit (87 / 100)) (1107134908395247 / 1125899906842624) = 2615840783564363 / 2251799813685248"
proof -
  have d: "float_sub (1107134908395247 / 1125899906842624) (float_lit (4 / 10)) = 5254199565265579 / 9007199254740992" by code_simp
  have h: "float_truediv (5254199565265579 / 9007199254740992) (float_of_int 2) = 5254199565265579 / 18014398509481984" by code_simp
  have v: "float_add (float_lit (87 / 100)) (5254199565265579 / 18014398509481984) = 2615840783564363 / 2251799813685248" by code_simp
  show ?thesis unfolding raw_score_def d h by (rule v)
qed
lemma risque_centre: "risque 50 250 150 = 3602879701896397 / 9007199254740992"
proof -
  have q1: "int_truediv (50 - 50) 200 = 0" by code_simp
  have q2: "int_truediv (250 - 250) 1500 = 0" by code_simp
  have q3: "int_truediv (150 - 150) 400 = 0" by code_simp
  have s1: "float_add (float_lit (4 / 10)) 0 = 3602879701896397 / 9007199254740992" by code_simp
  have s2: "float_add (3602879701896397 / 9007199254740992) 0 = 3602879701896397 / 9007199254740992" by code_simp
  have s3: "float_sub (3602879701896397 / 9007199254740992) 0 = 3602879701896397 / 9007199254740992" by code_simp
  show ?thesis unfolding risque_def q1 q2 q3 s1 s2 by (rule s3)
qed

lemma raw_score_centre: "raw_score (float_lit (89 / 100)) (3602879701896397 / 9007199254740992) = 8016407336719483 / 9007199254740992"
proof -
  have d: "float_sub (3602879701896397 / 9007199254740992) (float_lit (4 / 10)) = 0" by code_simp
  have h: "float_truediv 0 (float_of_int 2) = 0" by code_simp
  have v: "float_add (float_lit (89 / 100)) 0 = 8016407336719483 / 9007199254740992" by code_simp
  show ?thesis unfolding raw_score_def d h by (rule v)
qed

lemma float_lit_values:
  "float_lit (4 / 10) = 3602879701896397 / 9007199254740992"
  "float_lit (5 / 100) = 3602879701896397 / 72057594037927936"
  "float_lit (95 / 100) = 4278419646001971 / 4503599627370496"
  "float_lit (6 / 10) = 5404319552844595 / 9007199254740992"
  "float_lit (6275 / 10000) = 1413004383087493 / 2251799813685248"
  "float_lit (89 / 100) = 8016407336719483 / 9007199254740992"
  by code_simp+

subsection \<open>The dictionary lookup\<close>

lemma opts_distinct:
  "opt_xgboost \<noteq> opt_randomforest" "opt_xgboost \<noteq> opt_logistic"
  "opt_randomforest \<noteq> opt_logistic"
  by (simp_all add: opt_xgboost_def opt_randomforest_def opt_logistic_def)

lemma scores_lookup:
  "map_of scores_modeles opt_xgboost = Some (float_lit (89 / 100))"
  "map_of scores_modeles opt_randomforest = Some (float_lit (87 / 100))"
  "map_of scores_modeles opt_logistic = Some (float_lit (84 / 100))"
  using opts_distinct by (simp_all add: scores_modeles_def)

lemma scores_lookup_option_of: "map_of scores_modeles (option_of m) = Some (baseScoreOf m)"
  by (cases m) (simp_all only: option_of.simps baseScoreOf.simps scores_lookup)

lemma model_options_cases:
  "mc \<in> set model_options \<Longrightarrow> \<exists>m. mc = option_of m"
  by (auto simp: model_options_def intro: option_of.simps [symmetric])

lemma baseScoreOf_ge: "float_lit (84 / 100) \<le> baseScoreOf m"
  by (cases m) (simp_all only: baseScoreOf.simps, (rule float_lit_mono, simp)+)

lemma predict_option_of:
  "predict (option_of m) age chol thalach cp =
     Inr \<lparr>risk = risque age chol thalach,
          proba = proba_of (baseScoreOf m) (risque age chol thalach),
          label = (if float_lit (6 / 10) \<le> proba_of (baseScoreOf m) (risque age chol thalach)
                   then label_maladie else label_sain)\<rparr>"
  by (simp only: predict_def Let_def scores_lookup_option_of option.case)

lemma clamp_bounds_ordered: "float_lit (5 / 100) \<le> float_lit (95 / 100)"
  by (rule float_lit_mono) simp

lemma proba_of_range:
  "float_lit (5 / 100) \<le> proba_of b r" "proba_of b r \<le> float_lit (95 / 100)"
  using clamp_bounds_ordered by (simp_all add: proba_of_def py_min_def py_max_def)

lemma proba_of_clamp:
  "proba_of b r = clamp (raw_score b r) (float_lit (5 / 100)) (float_lit (95 / 100))"
  using clamp_bounds_ordered by (simp add: proba_of_def py_min_def py_max_def clamp_def)

lemma labels_distinct: "label_maladie \<noteq> label_sain"
  by (simp add: label_maladie_def label_sain_def)

lemma predict_in_options:
  assumes "model_choice \<in> set model_options"
  obtains m where "model_choice = option_of m"
  using model_options_cases [OF assms] by blast

lemma float_lit_inside_interval:
  "5 / 100 \<le> float_lit (5 / 100)" "float_lit (95 / 100) \<le> 95 / 100"
  unfolding float_lit_values by simp_all

lemma proba_of_ge:
  assumes "float_lit (6275 / 10000) \<le> raw_score b r"
  shows "float_lit (6275 / 10000) \<le> proba_of b r"
proof -
  have "float_lit (6275 / 10000) \<le> float_lit (95 / 100)"
    by (rule float_lit_mono) simp
  with assms show ?thesis
    by (simp add: proba_of_def py_min_def py_max_def)
qed

lemma raw_score_ge_low_corner:
  assumes "in_sliders age chol thalach cp"
  shows "float_lit (6275 / 10000) \<le> raw_score (baseScoreOf m) (risque age chol thalach)"
proof -
  from assms have "risque 20 100 220 \<le> risque age chol thalach"
    by (intro risque_mono) (simp_all add: in_sliders_def)
  with baseScoreOf_ge [of m]
  have "raw_score (float_lit (84 / 100)) (risque 20 100 220)
      \<le> raw_score (baseScoreOf m) (risque age chol thalach)"
    by (rule raw_score_mono)
  then show ?thesis
    by (simp only: risque_low_corner raw_score_low_corner float_lit_values)
qed

lemma raw_score_top: "raw_score (float_lit (89 / 100)) (1107134908395247 / 1125899906842624) = 665219194959517 / 562949953421312"
proof -
  have d: "float_sub (1107134908395247 / 1125899906842624) (float_lit (4 / 10)) = 5254199565265579 / 9007199254740992" by code_simp
  have h: "float_truediv (5254199565265579 / 9007199254740992) (float_of_int 2) = 5254199565265579 / 18014398509481984" by code_simp
  have v: "float_add (float_lit (89 / 100)) (5254199565265579 / 18014398509481984) = 665219194959517 / 562949953421312" by code_simp
  show ?thesis unfolding raw_score_def d h by (rule v)
qed

lemma baseScoreOf_le: "baseScoreOf m \<le> float_lit (89 / 100)"
  by (cases m) (simp_all only: baseScoreOf.simps, (rule float_lit_mono, simp)+)

text \<open>
  Within the slider ranges the risk stays between about -0.025 and 0.9834 and the value
  before clamping between 0.6275 and about 1.1817: far from the overflow threshold of
  a double, so that rounding without an upper limit is the rounding Python does.
\<close>

lemma risque_bounded:
  assumes "in_sliders age chol thalach cp"
  shows "- (900719925474099 / 36028797018963968) \<le> risque age chol thalach"
    and "risque age chol thalach \<le> 1107134908395247 / 1125899906842624"
    and "1413004383087493 / 2251799813685248 \<le> raw_score (baseScoreOf m) (risque age chol thalach)"
    and "raw_score (baseScoreOf m) (risque age chol thalach) \<le> 665219194959517 / 562949953421312"
proof -
  from assms have lo: "risque 20 100 220 \<le> risque age chol thalach"
    by (intro risque_mono) (simp_all add: in_sliders_def)
  from assms have hi: "risque age chol thalach \<le> risque 80 600 70"
    by (intro risque_mono) (simp_all add: in_sliders_def)
  from lo show "- (900719925474099 / 36028797018963968) \<le> risque age chol thalach"
    by (simp only: risque_low_corner)
  from hi show "risque age chol thalach \<le> 1107134908395247 / 1125899906842624"
    by (simp only: risque_high_corner)
  from raw_score_ge_low_corner [OF assms, of m]
  show "1413004383087493 / 2251799813685248 \<le> raw_score (baseScoreOf m) (risque age chol thalach)"
    by (simp only: float_lit_values)
  from baseScoreOf_le [of m] hi
  have "raw_score (baseScoreOf m) (risque age chol thalach)
      \<le> raw_score (float_lit (89 / 100)) (risque 80 600 70)"
    by (rule raw_score_mono)
  then show "raw_score (baseScoreOf m) (risque age chol thalach) \<le> 665219194959517 / 562949953421312"
    by (simp only: risque_high_corner raw_score_top)
qed

subsection \<open>The claims about the scorer\<close>

text \<open>
  Claim C1. For every age in [20, 80], chol in [100, 600], thalach in [70, 220], cp in
  {1, 2, 3, 4} and each of the three models, the prediction computed by the form is the
  one the specification describes: the risk is
  \<open>0.4 + (age - 50)/200 + (chol - 250)/1500 - (thalach - 150)/400\<close>, the probability
  is \<open>base + (risk - 0.4)/2\<close> clamped to [0.05, 0.95] with base 0.89, 0.87 or 0.84, and
  the label is "disease" when the probability is at least 0.6 and "healthy" otherwise.
  The nested \<open>min\<close>/\<open>max\<close> of the source is the clamp, the dictionary lookup by the
  selectbox string gives the base score of the model, and the two display strings are
  the two labels. The formulas are evaluated in float arithmetic; the risk is within
  \<open>7 / 2\<^sup>5\<^sup>3\<close> and the clamped value within \<open>8 / 2\<^sup>5\<^sup>3\<close> of the exact value of the formula.
\<close>

theorem scorer_refines_spec:
  assumes "in_sliders age chol thalach cp"
  shows "predict (option_of m) age chol thalach cp =
     Inr \<lparr>risk = spec_risk age chol thalach,
          proba = fst (spec_score age chol thalach cp m),
          label = label_text (snd (spec_score age chol thalach cp m))\<rparr> \<and>
   \<bar>spec_risk age chol thalach - risque_exact age chol thalach\<bar> \<le> 7 / 2 ^ 53 \<and>
   (\<exists>v. fst (spec_score age chol thalach cp m) = clamp v (float_lit (5 / 100)) (float_lit (95 / 100)) \<and>
        \<bar>v - raw_score_exact (base_exact m) (risque_exact age chol thalach)\<bar> \<le> 8 / 2 ^ 53)"
proof -
  have r: "spec_risk age chol thalach = risque age chol thalach"
    by (simp only: spec_risk_def risque_def)
  have s: "spec_score age chol thalach cp m =
      (proba_of (baseScoreOf m) (risque age chol thalach),
       if float_lit (6 / 10) \<le> proba_of (baseScoreOf m) (risque age chol thalach)
       then disease else healthy)"
    by (simp only: spec_score_def Let_def r proba_of_clamp raw_score_def)
  have "predict (option_of m) age chol thalach cp =
     Inr \<lparr>risk = spec_risk age chol thalach,
          proba = fst (spec_score age chol thalach cp m),
          label = label_text (snd (spec_score age chol thalach cp m))\<rparr>"
    by (simp add: predict_option_of r s)
  moreover have "\<bar>spec_risk age chol thalach - risque_exact age chol thalach\<bar> \<le> 7 / 2 ^ 53"
    unfolding r by (rule risque_close_to_exact [OF assms])
  moreover have "fst (spec_score age chol thalach cp m) =
      clamp (raw_score (baseScoreOf m) (risque age chol thalach))
        (float_lit (5 / 100)) (float_lit (95 / 100))"
    by (simp only: s fst_conv proba_of_clamp)
  ultimately show ?thesis
    using raw_score_close_to_exact [OF assms, of m] by blast
qed

theorem scorer_refines_spec_witness:
  "in_sliders 63 233 150 3 \<and>
   predict (option_of Logistic) 63 233 150 3 =
     Inr \<lparr>risk = spec_risk 63 233 150,
          proba = fst (spec_score 63 233 150 3 Logistic),
          label = label_text (snd (spec_score 63 233 150 3 Logistic))\<rparr> \<and>
   \<bar>spec_risk 63 233 150 - risque_exact 63 233 150\<bar> \<le> 7 / 2 ^ 53"
proof -
  have h: "in_sliders 63 233 150 3" by (simp add: in_sliders_def)
  from h scorer_refines_spec [OF h, of Logistic] show ?thesis by blast
qed

text \<open>
  Claim C2. For every input within the slider ranges and every option of the model
  selectbox, the prediction exists and its probability lies in the closed interval
  [0.05, 0.95]: between the two doubles the literals \<open>0.05\<close> and \<open>0.95\<close> denote, and
  hence also between the exact numbers 0.05 and 0.95.
\<close>

theorem proba_in_range:
  assumes "in_sliders age chol thalach cp" and "model_choice \<in> set model_options"
  shows "\<exists>p. predict model_choice age chol thalach cp = Inr p \<and>
     float_lit (5 / 100) \<le> proba p \<and> proba p \<le> float_lit (95 / 100) \<and>
     5 / 100 \<le> proba p \<and> proba p \<le> 95 / 100"
proof -
  from assms(2) obtain m where m: "model_choice = option_of m"
    by (rule predict_in_options)
  define q where "q = proba_of (baseScoreOf m) (risque age chol thalach)"
  have lo: "float_lit (5 / 100) \<le> q" and hi: "q \<le> float_lit (95 / 100)"
    unfolding q_def by (rule proba_of_range)+
  from lo hi float_lit_inside_interval have "5 / 100 \<le> q" and "q \<le> 95 / 100"
    by linarith+
  with lo hi show ?thesis
    unfolding m predict_option_of q_def by simp
qed

theorem proba_in_range_witness:
  "in_sliders 80 600 70 4 \<and> opt_randomforest \<in> set model_options \<and>
   (\<exists>p. predict opt_randomforest 80 600 70 4 = Inr p \<and>
     float_lit (5 / 100) \<le> proba p \<and> proba p \<le> float_lit (95 / 100) \<and>
     5 / 100 \<le> proba p \<and> proba p \<le> 95 / 100)"
proof -
  have h1: "in_sliders 80 600 70 4" by (simp add: in_sliders_def)
  have h2: "opt_randomforest \<in> set model_options" by (simp add: model_options_def)
  from h1 h2 proba_in_range [OF h1 h2] show ?thesis by simp
qed

text \<open>
  Claim C3. For every input within the slider ranges and every model, the probability
  is at least 0.6275, which is at least 0.6, so the label is always the "disease" one
  and never the "healthy" one. The comparison is the one Python makes: \<open>0.6275\<close> is
  the double that literal denotes, and the lowest probability, at age 20, chol 100,
  thalach 220 with the logistic model, is exactly that double (\<open>low_corner_attained\<close>).
\<close>

theorem always_disease:
  assumes "in_sliders age chol thalach cp" and "model_choice \<in> set model_options"
  shows "\<exists>p. predict model_choice age chol thalach cp = Inr p \<and>
     float_lit (6275 / 10000) \<le> proba p \<and>
     float_lit (6 / 10) \<le> float_lit (6275 / 10000) \<and>
     label p = label_maladie \<and> label p \<noteq> label_sain"
proof -
  from assms(2) obtain m where m: "model_choice = option_of m"
    by (rule predict_in_options)
  define q where "q = proba_of (baseScoreOf m) (risque age chol thalach)"
  have q: "float_lit (6275 / 10000) \<le> q"
    unfolding q_def using assms(1) by (intro proba_of_ge raw_score_ge_low_corner)
  have t: "float_lit (6 / 10) \<le> float_lit (6275 / 10000)"
    by (rule float_lit_mono) simp
  from q t have "float_lit (6 / 10) \<le> q" by linarith
  with q t labels_distinct show ?thesis
    unfolding m predict_option_of q_def [symmetric] by simp
qed

theorem always_disease_witness:
  "in_sliders 20 100 220 1 \<and> opt_logistic \<in> set model_options \<and>
   (\<exists>p. predict opt_logistic 20 100 220 1 = Inr p \<and>
     float_lit (6275 / 10000) \<le> proba p \<and>
     float_lit (6 / 10) \<le> float_lit (6275 / 10000) \<and>
     label p = label_maladie \<and> label p \<noteq> label_sain)"
proof -
  have h1: "in_sliders 20 100 220 1" by (simp add: in_sliders_def)
  have h2: "opt_logistic \<in> set model_options" by (simp add: model_options_def)
  from h1 h2 always_disease [OF h1 h2] show ?thesis by simp
qed

lemma low_corner_attained:
  "predict opt_logistic 20 100 220 cp =
     Inr \<lparr>risk = - (900719925474099 / 36028797018963968),
          proba = float_lit (6275 / 10000), label = label_maladie\<rparr>"
  "float_lit (6275 / 10000) = 6275 / 10000 - 3 / 56294995342131200"
proof -
  have p: "proba_of (float_lit (84 / 100)) (- (900719925474099 / 36028797018963968))
      = float_lit (6275 / 10000)"
    unfolding proba_of_def raw_score_low_corner
    unfolding float_lit_values py_min_def py_max_def by simp
  have "float_lit (6 / 10) \<le> float_lit (6275 / 10000)"
    by (rule float_lit_mono) simp
  with p show "predict opt_logistic 20 100 220 cp =
     Inr \<lparr>risk = - (900719925474099 / 36028797018963968),
          proba = float_lit (6275 / 10000), label = label_maladie\<rparr>"
    using predict_option_of [of Logistic 20 100 220 cp]
    by (simp add: risque_low_corner)
  show "float_lit (6275 / 10000) = 6275 / 10000 - 3 / 56294995342131200"
    unfolding float_lit_values by simp
qed

text \<open>
  Claim C6. Two predictions that agree on age, chol, thalach and model and differ only
  in cp are identical, in probability and in label: cp does not enter the computation.
\<close>

theorem cp_not_used:
  "predict model_choice age chol thalach cp = predict model_choice age chol thalach cp'"
  by (simp only: predict_def)

text \<open>
  Claim C7. At age 80, chol 600, thalach 70, cp 4 with the random forest model the risk
  is 0.9833 to four decimals, the value before clamping, \<open>0.87 + (risk - 0.4)/2\<close>,
  exceeds 0.95, the probability returned is exactly the double 0.95, and the label is
  the "disease" one.
\<close>

theorem high_corner_clamped:
  "predict opt_randomforest 80 600 70 4 =
     Inr \<lparr>risk = 1107134908395247 / 1125899906842624,
          proba = float_lit (95 / 100), label = label_maladie\<rparr> \<and>
   \<bar>1107134908395247 / 1125899906842624 - 9833 / 10000\<bar> < (1 / 10000 :: rat) \<and>
   raw_score (float_lit (87 / 100)) (risque 80 600 70) = 2615840783564363 / 2251799813685248 \<and>
   float_lit (95 / 100) < 2615840783564363 / 2251799813685248 \<and>
   (95 / 100 :: rat) < 2615840783564363 / 2251799813685248"
proof -
  have p: "proba_of (float_lit (87 / 100)) (1107134908395247 / 1125899906842624)
      = float_lit (95 / 100)"
    unfolding proba_of_def raw_score_high_corner
    unfolding float_lit_values py_min_def py_max_def by simp
  have "float_lit (6 / 10) \<le> float_lit (95 / 100)"
    by (rule float_lit_mono) simp
  with p have "predict opt_randomforest 80 600 70 4 =
     Inr \<lparr>risk = 1107134908395247 / 1125899906842624,
          proba = float_lit (95 / 100), label = label_maladie\<rparr>"
    using predict_option_of [of RandomForest 80 600 70 4]
    by (simp add: risque_high_corner)
  moreover have "raw_score (float_lit (87 / 100)) (risque 80 600 70)
      = 2615840783564363 / 2251799813685248"
    by (simp only: risque_high_corner raw_score_high_corner)
  moreover have "float_lit (95 / 100) < 2615840783564363 / 2251799813685248"
    unfolding float_lit_values by simp
  ultimately show ?thesis by simp
qed

text \<open>
  Claim C8. At age 50, chol 250, thalach 150, any cp, with the XGBoost model the risk
  is exactly the double 0.4, the probability exactly the double 0.89, and the label is
  the "disease" one.
\<close>

theorem centre_point:
  "predict opt_xgboost 50 250 150 cp =
     Inr \<lparr>risk = float_lit (4 / 10), proba = float_lit (89 / 100), label = label_maladie\<rparr>"
proof -
  have p: "proba_of (float_lit (89 / 100)) (3602879701896397 / 9007199254740992)
      = float_lit (89 / 100)"
    unfolding proba_of_def raw_score_centre
    unfolding float_lit_values py_min_def py_max_def by simp
  have "float_lit (6 / 10) \<le> float_lit (89 / 100)"
    by (rule float_lit_mono) simp
  with p show ?thesis
    using predict_option_of [of XGBoost 50 250 150 cp]
    by (simp only: risque_centre float_lit_values(1)) simp
qed

section \<open>Properties of the data loader\<close>

text \<open>
  The \<open>try\<close> block raises in three ways: reading the upload fails, reading the remote
  file fails, or the remote file is read but does not have fourteen columns, so that
  the assignment of the fourteen names raises.
\<close>

lemma try_block_raises_iff:
  "try_block read_csv uploaded_file = Inl e \<longleftrightarrow>
     (\<exists>f. uploaded_file = Some f \<and> read_csv (Uploaded f) = Inl e) \<or>
     (uploaded_file = None \<and> read_csv (Remote default_url) = Inl e) \<or>
     (uploaded_file = None \<and> e = ValueError \<and>
      (\<exists>t. read_csv (Remote default_url) = Inr t \<and> length t \<noteq> 14))"
  by (auto simp: try_block_def set_columns_def heart_columns_def
      split: option.splits sum.splits if_splits)

text \<open>
  Claim C4. Whenever loading raises an exception, on the upload path (the upload
  cannot be read) or on the remote path (the fetch or the parse fails, or the fetched
  table cannot take the fourteen names), the loader returns exactly the three-row
  default frame, with columns age = [45, 55, 65], chol = [210, 260, 320],
  thalach = [150, 140, 120] and target = [0, 1, 1], and emits the warning.
\<close>

theorem fallback_on_exception:
  assumes "(\<exists>f. uploaded_file = Some f \<and> read_csv (Uploaded f) = Inl e) \<or>
     (uploaded_file = None \<and> read_csv (Remote default_url) = Inl e) \<or>
     (uploaded_file = None \<and> (\<exists>t. read_csv (Remote default_url) = Inr t \<and> length t \<noteq> 14))"
  shows "load_data read_csv uploaded_file =
     \<lparr>warnings = [warning_text],
      df = [(''age'', [IntCell 45, IntCell 55, IntCell 65]),
            (''chol'', [IntCell 210, IntCell 260, IntCell 320]),
            (''thalach'', [IntCell 150, IntCell 140, IntCell 120]),
            (''target'', [IntCell 0, IntCell 1, IntCell 1])]\<rparr>"
proof -
  from assms have "\<exists>e'. try_block read_csv uploaded_file = Inl e'"
    unfolding try_block_raises_iff by blast
  then show ?thesis
    by (auto simp: load_data_def fallback_df_def)
qed

theorem fallback_on_exception_witness:
  "unreadable (Uploaded []) = Inl (OtherError ''EmptyDataError'') \<and>
   unreadable (Remote default_url) = Inl (OtherError ''URLError'') \<and>
   serves_two_columns (Remote default_url) = Inr two_columns \<and> length two_columns \<noteq> 14 \<and>
   load_data unreadable (Some []) =
     \<lparr>warnings = [warning_text],
      df = [(''age'', [IntCell 45, IntCell 55, IntCell 65]),
            (''chol'', [IntCell 210, IntCell 260, IntCell 320]),
            (''thalach'', [IntCell 150, IntCell 140, IntCell 120]),
            (''target'', [IntCell 0, IntCell 1, IntCell 1])]\<rparr> \<and>
   load_data unreadable None = load_data unreadable (Some []) \<and>
   load_data serves_two_columns None = load_data unreadable None"
proof -
  have h1: "unreadable (Uploaded []) = Inl (OtherError ''EmptyDataError'')"
    by (simp add: unreadable_def)
  have h2: "unreadable (Remote default_url) = Inl (OtherError ''URLError'')"
    by (simp add: unreadable_def)
  have h3: "serves_two_columns (Remote default_url) = Inr two_columns"
    and h4: "length two_columns \<noteq> 14"
    by (simp_all add: serves_two_columns_def two_columns_def)
  from h1 have a1: "(\<exists>f. Some [] = Some f \<and> unreadable (Uploaded f) = Inl (OtherError ''EmptyDataError'')) \<or>
     (Some [] = None \<and> unreadable (Remote default_url) = Inl (OtherError ''EmptyDataError'')) \<or>
     (Some [] = None \<and> (\<exists>t. unreadable (Remote default_url) = Inr t \<and> length t \<noteq> 14))"
    by blast
  from h2 have a2: "(\<exists>f. None = Some f \<and> unreadable (Uploaded f) = Inl (OtherError ''URLError'')) \<or>
     (None = None \<and> unreadable (Remote default_url) = Inl (OtherError ''URLError'')) \<or>
     (None = None \<and> (\<exists>t. unreadable (Remote default_url) = Inr t \<and> length t \<noteq> 14))"
    by blast
  from h3 h4 have a3: "(\<exists>f. None = Some f \<and> serves_two_columns (Uploaded f) = Inl ValueError) \<or>
     (None = None \<and> serves_two_columns (Remote default_url) = Inl ValueError) \<or>
     (None = None \<and> (\<exists>t. serves_two_columns (Remote default_url) = Inr t \<and> length t \<noteq> 14))"
    by blast
  from h1 h2 h3 h4 fallback_on_exception [OF a1] fallback_on_exception [OF a2]
    fallback_on_exception [OF a3]
  show ?thesis by simp
qed

text \<open>
  Claim C5, as stated, fails: with no upload and a remote file that is fetched and
  parsed but has two columns, the fourteen names are not assigned. The assignment
  raises, the bare \<open>except\<close> catches it, and the loader returns the default frame with
  the warning.
\<close>

theorem remote_header_not_always_assigned:
  "serves_two_columns (Remote default_url) = Inr two_columns \<and>
   load_data serves_two_columns None = \<lparr>warnings = [warning_text], df = fallback_df\<rparr> \<and>
   map fst (df (load_data serves_two_columns None)) \<noteq> heart_columns \<and>
   map snd (df (load_data serves_two_columns None)) \<noteq> map snd two_columns"
  by (simp add: load_data_def try_block_def serves_two_columns_def set_columns_def
      two_columns_def heart_columns_def fallback_df_def)

text \<open>
  Claim C5, amended. When no file is uploaded, the remote fetch succeeds and the
  fetched table has exactly fourteen columns, the loader returns that table with the
  fourteen fixed names in their fixed order, whatever the names were, and with the
  cells of every column unchanged.
\<close>

theorem remote_header_assigned:
  assumes "read_csv (Remote default_url) = Inr t" and "length t = 14"
  shows "\<exists>t'. load_data read_csv None = \<lparr>warnings = [], df = t'\<rparr> \<and>
     map fst t' = heart_columns \<and> map snd t' = map snd t"
proof -
  have n: "length heart_columns = 14"
    by (simp add: heart_columns_def)
  with assms have "load_data read_csv None = \<lparr>warnings = [], df = zip heart_columns (map snd t)\<rparr>"
    by (simp add: load_data_def try_block_def set_columns_def)
  moreover from n assms(2) have "map fst (zip heart_columns (map snd t)) = heart_columns"
    and "map snd (zip heart_columns (map snd t)) = map snd t"
    by simp_all
  ultimately show ?thesis by blast
qed

theorem remote_header_assigned_witness:
  "serves_fourteen_columns (Remote default_url) = Inr fourteen_columns \<and>
   length fourteen_columns = 14 \<and>
   (\<exists>t'. load_data serves_fourteen_columns None = \<lparr>warnings = [], df = t'\<rparr> \<and>
     map fst t' = heart_columns \<and> map snd t' = map snd fourteen_columns)"
proof -
  have h1: "serves_fourteen_columns (Remote default_url) = Inr fourteen_columns"
    by (simp add: serves_fourteen_columns_def)
  have h2: "length fourteen_columns = 14"
    by (simp add: fourteen_columns_def)
  from h1 h2 remote_header_assigned [of serves_fourteen_columns fourteen_columns, OF h1 h2]
  show ?thesis by simp
qed

section \<open>Properties of the JSON export\<close>

text \<open>
  Claim C10. The JSON download is the text of the fixed dictionary: the key
  \<open>meilleur_modele\<close> with the string XGBoost, the key \<open>f1_score_max\<close> with the number
  89.4 and the key \<open>features_importantes\<close> with the sequence thalach, oldpeak, cp, in
  this order. It is the same text whatever dataset was loaded and whatever the
  scorer was given or returned. The text is Python's own rendering of a dictionary,
  with single quotes around strings.
\<close>

theorem json_export_fixed:
  "json_download loaded_data prediction =
     Some ''{'meilleur_modele': 'XGBoost', 'f1_score_max': 89.4, 'features_importantes': ['thalach', 'oldpeak', 'cp']}'' \<and>
   map fst json_data = [''meilleur_modele'', ''f1_score_max'', ''features_importantes''] \<and>
   map_of json_data ''meilleur_modele'' = Some (PyStr ''XGBoost'') \<and>
   map_of json_data ''f1_score_max'' = Some (PyFloat (float_lit (894 / 10))) \<and>
   map_of json_data ''features_importantes'' =
     Some (PyList [PyStr ''thalach'', PyStr ''oldpeak'', PyStr ''cp''])"
proof -
  have "py_repr (PyDict json_data) =
     Some ''{'meilleur_modele': 'XGBoost', 'f1_score_max': 89.4, 'features_importantes': ['thalach', 'oldpeak', 'cp']}''"
    by code_simp
  then show ?thesis
    by (simp add: json_download_def json_data_def)
qed

end
